theory Spec2Isabelle
  imports Main
begin

section \<open>PypTeX: the fragment tokenizer, the execution hooks and the persistent cache\<close>

text \<open>
  A shallow embedding of \<^verbatim>\<open>src/pyptex/__init__.py\<close>: the regular expression
  \<^verbatim>\<open>pypparser\<close> and its use by \<^verbatim>\<open>pyptex.process\<close>, the handlers
  \<^verbatim>\<open>scanner\<close>, \<^verbatim>\<open>subber\<close> and \<^verbatim>\<open>appender\<close> of \<^verbatim>\<open>pyptex.compile\<close>,
  the renderer \<^verbatim>\<open>pyptex.mylatex\<close>, the dependency table (\<^verbatim>\<open>dep\<close>,
  \<^verbatim>\<open>resolvedeps\<close>) and the cache decision of \<^verbatim>\<open>compile\<close>.

  Python strings are modelled as \<^typ>\<open>string\<close>, exceptions as the left summand of a sum
  type, the instance \<^verbatim>\<open>self\<close> as a record that every method takes and returns.
  The Python interpreter behind \<^verbatim>\<open>eval\<close>/\<^verbatim>\<open>exec\<close>, \<^verbatim>\<open>sympy.latex\<close>,
  the \<^verbatim>\<open>%\<close> string operator, \<^verbatim>\<open>Path.touch\<close> and \<^verbatim>\<open>os.stat\<close> are
  parameters of the model.
\<close>

subsection \<open>Exceptions and values\<close>

datatype exn =
    AssertionError string
  | IndexError
  | UnboundLocalError
  | Raised string

text \<open>
  The values a fragment can produce, split the way \<^verbatim>\<open>mylatex\<close> tells them apart:
  \<^verbatim>\<open>None\<close>, a \<^verbatim>\<open>str\<close>, a \<^verbatim>\<open>pyptexNameSpace\<close> (carrying the
  \<^verbatim>\<open>pyptexfilename\<close> of the nested compiler it wraps), a matplotlib figure (a
  reference into the figure heap), a sympy plot object, and everything else.
\<close>

datatype 'v pyval =
    PNone
  | PStr string
  | PNameSpace string
  | PFigure nat
  | PSympyPlot
  | POther 'v

text \<open>
  A matplotlib figure object, reduced to the three attributes the program attaches to it;
  \<open>None\<close> is an attribute the object does not have (\<^verbatim>\<open>hasattr\<close> is false).
\<close>

record figure =
  FIGNAME :: "string option"
  IG :: "string option"
  drawn :: "bool option"

text \<open>A field that fragment code added to the instance: plain data or a callable.\<close>

datatype fval = Plain string | Callable string

subsection \<open>The instance\<close>

text \<open>
  The fields of \<^verbatim>\<open>self\<close> that \<^verbatim>\<open>compile\<close> and its helpers read or write.
  \<open>accum\<close> is \<^verbatim>\<open>__accum__\<close> and \<open>globals\<close> is \<^verbatim>\<open>__globals__\<close>, the scope
  of the fragments; \<open>subcount\<close> and \<open>compiled\<close> do not exist before \<^verbatim>\<open>compile\<close>
  sets them. \<open>others\<close> holds every further entry of \<^verbatim>\<open>self.__dict__\<close> by name.
  \<open>figs\<close> and \<open>fig_managers\<close> are matplotlib's process-wide registry
  (\<^verbatim>\<open>Gcf.get_all_fig_managers()\<close>), which the instance reaches.
\<close>

record ('v, 'sc) pyptex =
  texfilename :: string
  pyptexfilename :: string
  cachefilename :: string
  includegraphics :: string
  gendir :: string
  gencount :: nat
  disable_cache :: bool
  autoshow :: bool
  deps :: "string \<rightharpoonup> string"
  lc :: nat
  argv :: "string list"
  fragments :: "string list"
  outputs :: "string list"
  subcount :: "int option"
  compiled :: "string option"
  others :: "(string \<times> fval) list"
  accum :: "'v pyval list"
  globals :: 'sc
  figs :: "nat \<Rightarrow> figure"
  fig_managers :: "nat list"

subsection \<open>The regular expression \<^verbatim>\<open>pypparser\<close>\<close>

text \<open>
  \<^verbatim>\<open>((?<!\\)%[^\n]*\n)|(@@)|(@(\[([a-zA-Z]*)\])?{([^{}]+)}|@(\[([a-zA-Z]*)\])?{{{(.*?)}}})\<close>
  compiled with \<^verbatim>\<open>re.DOTALL\<close>. A match records what \<^verbatim>\<open>do_work\<close> reads of it:
  for group 1 the matched text (\<^verbatim>\<open>m.group(0)\<close>); for group 2 nothing; for a
  fragment the text of the match before the body, the option group (5 or 8, \<open>None\<close>
  when the bracket did not take part in the match), the body (group 6 or 9) and the
  text after it.
\<close>

datatype pmatch =
    MComment string
  | MEscape
  | MFragment string "string option" string string

fun match_text :: "pmatch \<Rightarrow> string" where
  "match_text (MComment s) = s"
| "match_text MEscape = ''@@''"
| "match_text (MFragment pre opt body post) = pre @ body @ post"

definition is_letter :: "char \<Rightarrow> bool" where
  \<comment> \<open>\<^verbatim>\<open>[a-zA-Z]\<close>\<close>
  "is_letter c =
     (let n = (of_char c :: nat) in (65 \<le> n \<and> n \<le> 90) \<or> (97 \<le> n \<and> n \<le> 122))"

definition not_brace :: "char \<Rightarrow> bool" where
  \<comment> \<open>\<^verbatim>\<open>[^{}]\<close>\<close>
  "not_brace c = (c \<noteq> CHR ''{'' \<and> c \<noteq> CHR ''}'')"

definition newline :: char where
  "newline = CHR 0x0A"

definition not_newline :: "char \<Rightarrow> bool" where
  \<comment> \<open>\<^verbatim>\<open>[^\n]\<close>\<close>
  "not_newline c = (c \<noteq> newline)"

text \<open>
  Group 1, \<^verbatim>\<open>(?<!\\)%[^\n]*\n\<close>: the character before the position is not a
  backslash, then a percent sign, the longest run without a newline, and a newline. The
  run ends at a newline or at the end of the text, so giving characters back cannot help:
  without a newline after the longest run there is no match.
\<close>

definition comment_alt :: "char option \<Rightarrow> string \<Rightarrow> pmatch option" where
  "comment_alt prev s =
     (case s of
        [] \<Rightarrow> None
      | c # cs \<Rightarrow>
          if c = CHR ''%'' \<and> prev \<noteq> Some (CHR 0x5C) then
            (case dropWhile not_newline cs of
               [] \<Rightarrow> None
             | n # _ \<Rightarrow> Some (MComment (c # takeWhile not_newline cs @ [n])))
          else None)"

text \<open>Group 2, \<^verbatim>\<open>@@\<close>.\<close>

definition escape_alt :: "string \<Rightarrow> pmatch option" where
  "escape_alt s = (if take 2 s = ''@@'' then Some MEscape else None)"

text \<open>
  \<^verbatim>\<open>(\[([a-zA-Z]*)\])?\<close> after the \<^verbatim>\<open>@\<close>: the text of the bracket, the
  letters, and the rest. Where the bracket does not match it is skipped; the rest then
  still begins with what was there.
\<close>

definition option_tag :: "string \<Rightarrow> string \<times> string option \<times> string" where
  "option_tag s =
     (case s of
        [] \<Rightarrow> ([], None, s)
      | c # cs \<Rightarrow>
          if c = CHR ''['' then
            (case dropWhile is_letter cs of
               [] \<Rightarrow> ([], None, s)
             | d # ds \<Rightarrow>
                 if d = CHR '']''
                 then (c # takeWhile is_letter cs @ [d], Some (takeWhile is_letter cs), ds)
                 else ([], None, s))
          else ([], None, s))"

text \<open>
  \<^verbatim>\<open>{([^{}]+)}\<close>: a brace, the longest run of characters that are not braces, which
  is not empty, and a closing brace.
\<close>

definition simple_body :: "string \<Rightarrow> string option" where
  "simple_body s =
     (case s of
        [] \<Rightarrow> None
      | c # cs \<Rightarrow>
          if c = CHR ''{'' \<and> takeWhile not_brace cs \<noteq> [] then
            (case dropWhile not_brace cs of
               [] \<Rightarrow> None
             | d # _ \<Rightarrow> if d = CHR ''}'' then Some (takeWhile not_brace cs) else None)
          else None)"

text \<open>
  \<^verbatim>\<open>(.*?)}}}\<close> with \<^verbatim>\<open>re.DOTALL\<close>: the shortest text, of any characters, that
  is followed by three closing braces.
\<close>

fun lazy_body :: "string \<Rightarrow> string option" where
  "lazy_body [] = None"
| "lazy_body (c # cs) =
     (if take 3 (c # cs) = ''}}}'' then Some []
      else (case lazy_body cs of None \<Rightarrow> None | Some b \<Rightarrow> Some (c # b)))"

definition triple_body :: "string \<Rightarrow> string option" where
  \<comment> \<open>\<^verbatim>\<open>{{{(.*?)}}}\<close>\<close>
  "triple_body s = (if take 3 s = ''{{{'' then lazy_body (drop 3 s) else None)"

text \<open>Group 3: the two fragment forms, the single-brace form first.\<close>

definition fragment_alt :: "string \<Rightarrow> pmatch option" where
  "fragment_alt s =
     (case s of
        [] \<Rightarrow> None
      | c # cs \<Rightarrow>
          if c = CHR ''@'' then
            (case option_tag cs of
               (br, opt, r) \<Rightarrow>
                 (case simple_body r of
                    Some b \<Rightarrow> Some (MFragment (c # br @ ''{'') opt b ''}'')
                  | None \<Rightarrow>
                      (case triple_body r of
                         Some b \<Rightarrow> Some (MFragment (c # br @ ''{{{'') opt b ''}}}'')
                       | None \<Rightarrow> None)))
          else None)"

text \<open>The whole pattern at one position: the alternatives in their order.\<close>

definition pypparser_match :: "char option \<Rightarrow> string \<Rightarrow> pmatch option" where
  "pypparser_match prev s =
     (case comment_alt prev s of
        Some m \<Rightarrow> Some m
      | None \<Rightarrow>
          (case escape_alt s of
             Some m \<Rightarrow> Some m
           | None \<Rightarrow> fragment_alt s))"

subsection \<open>\<^verbatim>\<open>pypparser.sub(do_work, S)\<close>\<close>

definition newlines :: "string \<Rightarrow> nat" where
  \<comment> \<open>the number of newline characters of a text\<close>
  "newlines s = length (filter (\<lambda>c. c = newline) s)"

text \<open>
  \<^verbatim>\<open>re.sub\<close> walks the text from left to right. At each position it tries the
  pattern; a match is handed to the replacement function, whose result goes to the output,
  and the walk goes on after the match; where nothing matches, one character is copied.
  The walk carries the character before the position (for the lookbehind) and the number
  of newlines before the position, which is \<^verbatim>\<open>ln[pos]\<close> of \<^verbatim>\<open>process\<close>. An
  exception of the replacement function ends the walk.
\<close>

function re_sub ::
  "(pmatch \<Rightarrow> nat \<Rightarrow> 's \<Rightarrow> exn + string \<times> 's) \<Rightarrow> char option \<Rightarrow> nat \<Rightarrow> string \<Rightarrow> 's
     \<Rightarrow> exn + string \<times> 's" where
  "re_sub repl prev nl [] st = Inr ([], st)"
| "re_sub repl prev nl (c # cs) st =
     (case pypparser_match prev (c # cs) of
        None \<Rightarrow>
          (case re_sub repl (Some c) (nl + newlines [c]) cs st of
             Inl e \<Rightarrow> Inl e
           | Inr (out, st') \<Rightarrow> Inr (c # out, st'))
      | Some m \<Rightarrow>
          (case repl m nl st of
             Inl e \<Rightarrow> Inl e
           | Inr (r, st') \<Rightarrow>
               (case re_sub repl (Some (last (match_text m))) (nl + newlines (match_text m))
                       (drop (length (match_text m)) (c # cs)) st' of
                  Inl e \<Rightarrow> Inl e
                | Inr (out, st'') \<Rightarrow> Inr (r @ out, st''))))"
  by pat_completeness auto
termination
proof (relation "measure (\<lambda>(repl, prev, nl, s, st). length s)")
  show "wf (measure (\<lambda>(repl, prev, nl, s, st). length s))" by simp
next
  fix repl :: "pmatch \<Rightarrow> nat \<Rightarrow> 's \<Rightarrow> exn + string \<times> 's"
  fix prev nl c cs and st :: 's
  show "((repl, Some c, nl + newlines [c], cs, st), (repl, prev, nl, c # cs, st))
          \<in> measure (\<lambda>(repl, prev, nl, s, st). length s)"
    by simp
next
  fix repl :: "pmatch \<Rightarrow> nat \<Rightarrow> 's \<Rightarrow> exn + string \<times> 's"
  fix prev nl c cs m x r and st st' :: 's
  assume "pypparser_match prev (c # cs) = Some m"
  then have "match_text m \<noteq> []"
    by (auto simp: pypparser_match_def comment_alt_def escape_alt_def fragment_alt_def
        split: option.splits list.splits if_splits prod.splits)
  then have "0 < length (match_text m)" by simp
  then show "((repl, Some (last (match_text m)), nl + newlines (match_text m),
               drop (length (match_text m)) (c # cs), st'), (repl, prev, nl, c # cs, st))
          \<in> measure (\<lambda>(repl, prev, nl, s, st). length s)"
    by (cases "length (match_text m)") auto
qed

type_synonym ('v, 'sc, 'z) self = "('v, 'sc, 'z) pyptex_scheme"

type_synonym ('v, 'sc, 'z) runner =
  "string \<Rightarrow> nat \<Rightarrow> string \<Rightarrow> ('v, 'sc, 'z) self \<Rightarrow> exn + string \<times> ('v, 'sc, 'z) self"

text \<open>
  \<^verbatim>\<open>do_work\<close> of \<^verbatim>\<open>process\<close>. A comment line is returned as it is, an escaped
  marker becomes one \<^verbatim>\<open>@\<close>. For a fragment, \<open>nl\<close> being \<^verbatim>\<open>ln\<close> at the start of
  the match, \<^verbatim>\<open>ln[z0]\<close> is \<open>nl\<close> plus the newlines of the match before the body and
  \<^verbatim>\<open>ln[z1] - ln[z0]\<close> is the number of newlines of the body; \<^verbatim>\<open>self.lc\<close> is
  updated before the runner is called with the body, \<^verbatim>\<open>ln[z0]\<close> and the option
  (\<^verbatim>\<open>m.group(k-1) or ''\<close>).
\<close>

definition do_work ::
  "('v, 'sc, 'z) runner \<Rightarrow> pmatch \<Rightarrow> nat \<Rightarrow> ('v, 'sc, 'z) self
     \<Rightarrow> exn + string \<times> ('v, 'sc, 'z) self" where
  "do_work runner m nl self =
     (case m of
        MComment s \<Rightarrow> Inr (s, self)
      | MEscape \<Rightarrow> Inr (''@'', self)
      | MFragment pre opt z post \<Rightarrow>
          (let ln_z0 = nl + newlines pre;
               ln_z1 = ln_z0 + newlines z;
               o' = (case opt of None \<Rightarrow> [] | Some s \<Rightarrow> s)
           in runner z ln_z0 o' (self\<lparr>lc := lc self + (ln_z1 - ln_z0) + 1\<rparr>)))"

definition process ::
  "string \<Rightarrow> ('v, 'sc, 'z) runner \<Rightarrow> ('v, 'sc, 'z) self \<Rightarrow> exn + string \<times> ('v, 'sc, 'z) self" where
  "process S runner self = re_sub (do_work runner) None 0 S self"

subsection \<open>The collaborators\<close>

text \<open>
  What the program calls and does not define. \<open>compiles_as_expr\<close> says whether
  \<^verbatim>\<open>compile(S, texfilename, mode='eval')\<close> succeeds; \<open>py_eval\<close> is \<^verbatim>\<open>eval\<close> of
  that code in \<^verbatim>\<open>self.__globals__\<close> and \<open>py_exec\<close> is compiling in mode
  \<^verbatim>\<open>exec\<close> and executing: fragment code reaches the instance through the name
  \<^verbatim>\<open>pyp\<close>, so both take and return it, or raise. \<open>sympy_latex\<close> is
  \<^verbatim>\<open>sympy.latex\<close>, which accepts any value, \<open>str_percent\<close> the string operator \<^verbatim>\<open>%\<close> with one
  argument, \<open>touch\<close> is \<^verbatim>\<open>Path(figname).touch()\<close>, giving the exception it raises.
\<close>

record ('v, 'sc, 'z) runtime =
  compiles_as_expr :: "string \<Rightarrow> bool"
  py_eval :: "string \<Rightarrow> ('v, 'sc, 'z) self \<Rightarrow> exn + 'v pyval \<times> ('v, 'sc, 'z) self"
  py_exec :: "string \<Rightarrow> ('v, 'sc, 'z) self \<Rightarrow> exn + ('v, 'sc, 'z) self"
  sympy_latex :: "'v pyval \<Rightarrow> exn + string"
  str_percent :: "string \<Rightarrow> string \<Rightarrow> exn + string"
  touch :: "string \<Rightarrow> exn option"

subsection \<open>Dependencies\<close>

text \<open>\<^verbatim>\<open>dep\<close>: \<^verbatim>\<open>self.deps[filename] = ''\<close>, and the file name is returned.\<close>

definition dep :: "string \<Rightarrow> ('v, 'sc, 'z) self \<Rightarrow> string \<times> ('v, 'sc, 'z) self" where
  "dep filename self = (filename, self\<lparr>deps := (deps self)(filename \<mapsto> [])\<rparr>)"

text \<open>
  \<^verbatim>\<open>resolvedeps\<close>: every key gets its datestamp. \<open>stat k\<close> is what
  \<^verbatim>\<open>format_my_nanos(os.stat(k).st_mtime_ns)\<close> returns at the time of the call, and
  \<open>None\<close> where it raises; then the stamp is the empty string.
\<close>

definition datestamp :: "(string \<Rightarrow> string option) \<Rightarrow> string \<Rightarrow> string" where
  "datestamp stat k = (case stat k of None \<Rightarrow> [] | Some ds \<Rightarrow> ds)"

definition resolvedeps :: "(string \<Rightarrow> string option) \<Rightarrow> ('v, 'sc, 'z) self \<Rightarrow> ('v, 'sc, 'z) self" where
  "resolvedeps stat self =
     self\<lparr>deps := (\<lambda>k. case deps self k of None \<Rightarrow> None | Some _ \<Rightarrow> Some (datestamp stat k))\<rparr>"

subsection \<open>Figures\<close>

definition digit :: "nat \<Rightarrow> char" where
  \<comment> \<open>the decimal digit of a number below ten\<close>
  "digit d = ''0123456789'' ! d"

function dec :: "nat \<Rightarrow> string" where
  \<comment> \<open>\<^verbatim>\<open>str\<close> of a natural number\<close>
  "dec n = (if n < 10 then [digit n] else dec (n div 10) @ [digit (n mod 10)])"
  by pat_completeness auto
termination
  by (relation "measure (\<lambda>n. n)") auto

text \<open>
  \<^verbatim>\<open>genname\<close> with its default pattern \<^verbatim>\<open>'fig{gencount}.eps'\<close>, the only one
  the program itself uses: the counter is incremented, then the name is formatted.
\<close>

definition genname :: "('v, 'sc, 'z) self \<Rightarrow> string \<times> ('v, 'sc, 'z) self" where
  "genname self =
     (let self1 = self\<lparr>gencount := gencount self + 1\<rparr>
      in (gendir self1 @ ''/'' @ ''fig'' @ dec (gencount self1) @ ''.eps'', self1))"

definition set_fig :: "nat \<Rightarrow> (figure \<Rightarrow> figure) \<Rightarrow> ('v, 'sc, 'z) self \<Rightarrow> ('v, 'sc, 'z) self" where
  \<comment> \<open>an attribute assignment on the figure object \<open>i\<close>\<close>
  "set_fig i f self = self\<lparr>figs := (figs self)(i := f (figs self i))\<rparr>"

text \<open>
  \<^verbatim>\<open>__setupfig__\<close>, one definition for each of its three statements. The first
  names the figure: a generated name, touched and declared as a dependency; it yields
  the local \<^verbatim>\<open>figname\<close>, which stays unbound when the figure has a name. The second
  attaches the markup and needs \<^verbatim>\<open>figname\<close>: a figure that has
  \<^verbatim>\<open>__FIGNAME__\<close> and lacks \<^verbatim>\<open>__IG__\<close> raises \<^verbatim>\<open>UnboundLocalError\<close>.
  The third gives the flag \<^verbatim>\<open>drawn\<close> its first value. The result is
  \<^verbatim>\<open>fig.__IG__\<close>.
\<close>

definition fig_name_step ::
  "('v, 'sc, 'z) runtime \<Rightarrow> nat \<Rightarrow> ('v, 'sc, 'z) self
     \<Rightarrow> exn + string option \<times> ('v, 'sc, 'z) self" where
  "fig_name_step rt i self =
     (if FIGNAME (figs self i) = None then
        (case touch rt (fst (genname self)) of
           Some e \<Rightarrow> Inl e
         | None \<Rightarrow>
             Inr (Some (fst (genname self)),
                  set_fig i (\<lambda>f. f\<lparr>FIGNAME := Some (fst (genname self))\<rparr>)
                    (snd (dep (fst (genname self)) (snd (genname self))))))
      else Inr (None, self))"

definition fig_ig_step ::
  "('v, 'sc, 'z) runtime \<Rightarrow> nat \<Rightarrow> string option \<Rightarrow> ('v, 'sc, 'z) self
     \<Rightarrow> exn + ('v, 'sc, 'z) self" where
  "fig_ig_step rt i figname self =
     (if IG (figs self i) = None then
        (case figname of
           None \<Rightarrow> Inl UnboundLocalError
         | Some fn \<Rightarrow>
             (case str_percent rt (includegraphics self) fn of
                Inl e \<Rightarrow> Inl e
              | Inr ig \<Rightarrow> Inr (set_fig i (\<lambda>f. f\<lparr>IG := Some ig\<rparr>) self)))
      else Inr self)"

definition fig_drawn_step :: "nat \<Rightarrow> ('v, 'sc, 'z) self \<Rightarrow> ('v, 'sc, 'z) self" where
  "fig_drawn_step i self =
     (if drawn (figs self i) = None then set_fig i (\<lambda>f. f\<lparr>drawn := Some False\<rparr>) self
      else self)"

definition setupfig ::
  "('v, 'sc, 'z) runtime \<Rightarrow> nat \<Rightarrow> ('v, 'sc, 'z) self \<Rightarrow> exn + string \<times> ('v, 'sc, 'z) self" where
  "setupfig rt i self =
     (case fig_name_step rt i self of
        Inl e \<Rightarrow> Inl e
      | Inr (figname, s1) \<Rightarrow>
          (case fig_ig_step rt i figname s1 of
             Inl e \<Rightarrow> Inl e
           | Inr s2 \<Rightarrow>
               (case IG (figs (fig_drawn_step i s2) i) of
                  None \<Rightarrow> Inl (Raised ''AttributeError'')
                | Some ig \<Rightarrow> Inr (ig, fig_drawn_step i s2))))"

text \<open>\<^verbatim>\<open>print\<close>: \<^verbatim>\<open>self.__accum__.extend(argv)\<close>.\<close>

definition print :: "'v pyval list \<Rightarrow> ('v, 'sc, 'z) self \<Rightarrow> ('v, 'sc, 'z) self" where
  "print vs self = self\<lparr>accum := accum self @ vs\<rparr>"

text \<open>
  \<^verbatim>\<open>showall\<close>: every figure of the registry is set up, and printed unless it is
  drawn.
\<close>

fun showall_loop ::
  "('v, 'sc, 'z) runtime \<Rightarrow> nat list \<Rightarrow> ('v, 'sc, 'z) self \<Rightarrow> exn + ('v, 'sc, 'z) self" where
  "showall_loop rt [] self = Inr self"
| "showall_loop rt (i # is) self =
     (case setupfig rt i self of
        Inl e \<Rightarrow> Inl e
      | Inr (ig, s1) \<Rightarrow>
          showall_loop rt is
            (if drawn (figs s1 i) = Some True then s1 else print [PFigure i] s1))"

definition showall :: "('v, 'sc, 'z) runtime \<Rightarrow> ('v, 'sc, 'z) self \<Rightarrow> exn + ('v, 'sc, 'z) self" where
  "showall rt self = showall_loop rt (fig_managers self) self"

subsection \<open>Running a fragment\<close>

text \<open>
  \<^verbatim>\<open>run\<close>: the code is shifted down by \<open>k\<close> lines, the accumulator is emptied, and
  the code is evaluated as an expression, whose value is accumulated, or else executed as
  statements; then the figures are shown if \<^verbatim>\<open>autoshow\<close> is set. The accumulator is
  the result.
\<close>

definition run ::
  "('v, 'sc, 'z) runtime \<Rightarrow> string \<Rightarrow> nat \<Rightarrow> ('v, 'sc, 'z) self
     \<Rightarrow> exn + 'v pyval list \<times> ('v, 'sc, 'z) self" where
  "run rt S k self =
     (let S1 = replicate k newline @ S;
          s0 = self\<lparr>accum := []\<rparr>
      in if compiles_as_expr rt S1 then
           (case py_eval rt S1 s0 of
              Inl e \<Rightarrow> Inl e
            | Inr (ret, s1) \<Rightarrow>
                (case (if autoshow (print [ret] s1) then showall rt (print [ret] s1)
                       else Inr (print [ret] s1)) of
                   Inl e \<Rightarrow> Inl e
                 | Inr s2 \<Rightarrow> Inr (accum s2, s2)))
         else
           (case py_exec rt S1 s0 of
              Inl e \<Rightarrow> Inl e
            | Inr s1 \<Rightarrow>
                (case (if autoshow s1 then showall rt s1 else Inr s1) of
                   Inl e \<Rightarrow> Inl e
                 | Inr s2 \<Rightarrow> Inr (accum s2, s2))))"

subsection \<open>The renderer\<close>

text \<open>
  \<^verbatim>\<open>mylatex\<close>, with the tests in the order of the source. The text of a
  \<^verbatim>\<open>pyptexNameSpace\<close> is \<^verbatim>\<open>\input{...}\<close> around the file name of the nested
  compiler.
\<close>

definition input_form :: "string \<Rightarrow> string" where
  "input_form fn = CHR 0x5C # ''input{'' @ fn @ ''}''"

definition mylatex ::
  "('v, 'sc, 'z) runtime \<Rightarrow> 'v pyval \<Rightarrow> ('v, 'sc, 'z) self \<Rightarrow> exn + string \<times> ('v, 'sc, 'z) self" where
  "mylatex rt X self =
     (case X of
        PNone \<Rightarrow> Inr ([], self)
      | PStr s \<Rightarrow> Inr (s, self)
      | PNameSpace fn \<Rightarrow> Inr (input_form fn, self)
      | PFigure i \<Rightarrow>
          (case setupfig rt i self of
             Inl e \<Rightarrow> Inl e
           | Inr (ig, s1) \<Rightarrow> Inr (ig, set_fig i (\<lambda>f. f\<lparr>drawn := Some True\<rparr>) s1))
      | PSympyPlot \<Rightarrow> Inr ([], self)
      | POther v \<Rightarrow>
          (case sympy_latex rt (POther v) of Inl e \<Rightarrow> Inl e | Inr s \<Rightarrow> Inr (s, self)))"

text \<open>\<^verbatim>\<open>''.join(map(self.mylatex, result))\<close>\<close>

fun join_mylatex ::
  "('v, 'sc, 'z) runtime \<Rightarrow> 'v pyval list \<Rightarrow> ('v, 'sc, 'z) self \<Rightarrow> exn + string \<times> ('v, 'sc, 'z) self" where
  "join_mylatex rt [] self = Inr ([], self)"
| "join_mylatex rt (X # Xs) self =
     (case mylatex rt X self of
        Inl e \<Rightarrow> Inl e
      | Inr (t, s1) \<Rightarrow>
          (case join_mylatex rt Xs s1 of
             Inl e \<Rightarrow> Inl e
           | Inr (ts, s2) \<Rightarrow> Inr (t @ ts, s2)))"

subsection \<open>The three runners of \<^verbatim>\<open>compile\<close>\<close>

text \<open>
  \<^verbatim>\<open>scanner\<close>: the body is appended to \<^verbatim>\<open>self.fragments\<close>, the option is
  asserted to be empty or \<^verbatim>\<open>verbatim\<close>, and the replacement is empty.
\<close>

definition scanner :: "('v, 'sc, 'z) runner" where
  "scanner C k o' self =
     (if o' = [] \<or> o' = ''verbatim''
      then Inr ([], self\<lparr>fragments := fragments self @ [C]\<rparr>)
      else Inl (AssertionError (''Invalid option: '' @ o')))"

text \<open>A Python list read at an index that may be negative.\<close>

definition py_index :: "'a list \<Rightarrow> int \<Rightarrow> exn + 'a" where
  "py_index xs i =
     (if 0 \<le> i then
        (if nat i < length xs then Inr (xs ! nat i) else Inl IndexError)
      else
        (if nat (- i) \<le> length xs then Inr (xs ! (length xs - nat (- i)))
         else Inl IndexError))"

text \<open>
  \<^verbatim>\<open>subber\<close>: the counter is incremented; an empty option gives
  \<^verbatim>\<open>self.outputs[self.subcount]\<close>, the option \<^verbatim>\<open>verbatim\<close> gives the body.
  With any other option the function returns \<^verbatim>\<open>None\<close>, for which \<^verbatim>\<open>re.sub\<close>
  substitutes nothing. The counter is an attribute that \<^verbatim>\<open>compile\<close> creates.
\<close>

definition subber :: "('v, 'sc, 'z) runner" where
  "subber C k o' self =
     (case subcount self of
        None \<Rightarrow> Inl (Raised ''AttributeError'')
      | Some n \<Rightarrow>
          (let s1 = self\<lparr>subcount := Some (n + 1)\<rparr>
           in if o' = [] then
                (case py_index (outputs s1) (n + 1) of
                   Inl e \<Rightarrow> Inl e
                 | Inr t \<Rightarrow> Inr (t, s1))
              else if o' = ''verbatim'' then Inr (C, s1)
              else Inr ([], s1)))"

text \<open>
  \<^verbatim>\<open>appender\<close>: the fragment is run, its values are rendered and joined, the joined
  text is appended to \<^verbatim>\<open>self.outputs\<close>; an empty option gives
  \<^verbatim>\<open>self.outputs[-1]\<close>, the option \<^verbatim>\<open>verbatim\<close> gives the body.
\<close>

definition appender :: "('v, 'sc, 'z) runtime \<Rightarrow> ('v, 'sc, 'z) runner" where
  "appender rt C k o' self =
     (case run rt C k self of
        Inl e \<Rightarrow> Inl e
      | Inr (result, s1) \<Rightarrow>
          (case join_mylatex rt result s1 of
             Inl e \<Rightarrow> Inl e
           | Inr (joined, s2) \<Rightarrow>
               (let s3 = s2\<lparr>outputs := outputs s2 @ [joined]\<rparr>
                in if o' = [] then
                     (case py_index (outputs s3) (- 1) of
                        Inl e \<Rightarrow> Inl e
                      | Inr t \<Rightarrow> Inr (t, s3))
                   else if o' = ''verbatim'' then Inr (C, s3)
                   else Inr ([], s3))))"

subsection \<open>The cache file\<close>

text \<open>
  The dictionary pickled into the cache file. The five keys that \<^verbatim>\<open>compile\<close> reads
  are each present or absent; the remaining entries of a pickled \<^verbatim>\<open>__dict__\<close> are
  kept together.
\<close>

record snapshot =
  s_texfilename :: string
  s_pyptexfilename :: string
  s_cachefilename :: string
  s_includegraphics :: string
  s_gendir :: string
  s_gencount :: nat
  s_autoshow :: bool
  s_lc :: nat
  s_subcount :: "int option"
  s_compiled :: "string option"
  s_others :: "(string \<times> fval) list"

record cache_dict =
  c_fragments :: "string list option"
  c_outputs :: "string list option"
  c_deps :: "(string \<rightharpoonup> string) option"
  c_argv :: "string list option"
  c_disable_cache :: "bool option"
  c_rest :: "snapshot option"

definition empty_dict :: cache_dict where
  \<comment> \<open>\<^verbatim>\<open>cache = {}\<close>\<close>
  "empty_dict = \<lparr>c_fragments = None, c_outputs = None, c_deps = None, c_argv = None,
                 c_disable_cache = None, c_rest = None\<rparr>"

text \<open>The dictionary after the loop over \<^verbatim>\<open>defaults\<close>: the five keys are there.\<close>

record cache =
  k_fragments :: "string list"
  k_outputs :: "string list"
  k_deps :: "string \<rightharpoonup> string"
  k_argv :: "string list"
  k_disable_cache :: bool
  k_rest :: "snapshot option"

definition with_defaults :: "cache_dict \<Rightarrow> cache" where
  "with_defaults d =
     \<lparr>k_fragments = (case c_fragments d of None \<Rightarrow> [] | Some v \<Rightarrow> v),
      k_outputs = (case c_outputs d of None \<Rightarrow> [] | Some v \<Rightarrow> v),
      k_deps = (case c_deps d of None \<Rightarrow> Map.empty | Some v \<Rightarrow> v),
      k_argv = (case c_argv d of None \<Rightarrow> [] | Some v \<Rightarrow> v),
      k_disable_cache = (case c_disable_cache d of None \<Rightarrow> True | Some v \<Rightarrow> v),
      k_rest = c_rest d\<rparr>"

text \<open>
  Loading: \<open>None\<close> is a cache file that cannot be opened or unpickled, for which the
  program takes the empty dictionary.
\<close>

definition load_cache :: "cache_dict option \<Rightarrow> cache" where
  "load_cache pickled = with_defaults (case pickled of None \<Rightarrow> empty_dict | Some d \<Rightarrow> d)"

text \<open>
  Saving: the entries of \<^verbatim>\<open>self.__dict__\<close> whose name does not both begin and end
  with two underscores and whose value is not callable. The fields of the record have
  such names and hold data; \<^verbatim>\<open>__accum__\<close> and \<^verbatim>\<open>__globals__\<close> are left out by
  their names; the test decides for the other entries.
\<close>

definition dunder :: "string \<Rightarrow> bool" where
  \<comment> \<open>\<^verbatim>\<open>k[0:2] == '__' and k[-2:] == '__'\<close>\<close>
  "dunder k = (take 2 k = ''__'' \<and> drop (length k - 2) k = ''__'')"

fun callable :: "fval \<Rightarrow> bool" where
  "callable (Plain d) = False"
| "callable (Callable f) = True"

definition saved_entry :: "string \<times> fval \<Rightarrow> bool" where
  "saved_entry kv = (if dunder (fst kv) then False else if callable (snd kv) then False else True)"

definition to_cache_dict :: "('v, 'sc, 'z) self \<Rightarrow> cache_dict" where
  "to_cache_dict self =
     \<lparr>c_fragments = Some (fragments self),
      c_outputs = Some (outputs self),
      c_deps = Some (deps self),
      c_argv = Some (argv self),
      c_disable_cache = Some (disable_cache self),
      c_rest = Some
        \<lparr>s_texfilename = texfilename self,
         s_pyptexfilename = pyptexfilename self,
         s_cachefilename = cachefilename self,
         s_includegraphics = includegraphics self,
         s_gendir = gendir self,
         s_gencount = gencount self,
         s_autoshow = autoshow self,
         s_lc = lc self,
         s_subcount = subcount self,
         s_compiled = compiled self,
         s_others = filter saved_entry (others self)\<rparr>\<rparr>"

text \<open>
  \<^verbatim>\<open>for k, v in cache.items(): self.__dict__[k] = v\<close>: an entry of the cache
  replaces the entry of the same name, or is added.
\<close>

fun put_entry :: "string \<times> fval \<Rightarrow> (string \<times> fval) list \<Rightarrow> (string \<times> fval) list" where
  "put_entry kv [] = [kv]"
| "put_entry kv (p # ps) = (if fst p = fst kv then kv # ps else p # put_entry kv ps)"

definition adopt_rest :: "snapshot option \<Rightarrow> ('v, 'sc, 'z) self \<Rightarrow> ('v, 'sc, 'z) self" where
  "adopt_rest r self =
     (case r of
        None \<Rightarrow> self
      | Some s \<Rightarrow>
          self\<lparr>texfilename := s_texfilename s,
               pyptexfilename := s_pyptexfilename s,
               cachefilename := s_cachefilename s,
               includegraphics := s_includegraphics s,
               gendir := s_gendir s,
               gencount := s_gencount s,
               autoshow := s_autoshow s,
               lc := s_lc s,
               subcount := (case s_subcount s of None \<Rightarrow> subcount self | Some n \<Rightarrow> Some n),
               compiled := (case s_compiled s of None \<Rightarrow> compiled self | Some t \<Rightarrow> Some t),
               others := foldl (\<lambda>d kv. put_entry kv d) (others self) (s_others s)\<rparr>)"

definition adopt :: "cache \<Rightarrow> ('v, 'sc, 'z) self \<Rightarrow> ('v, 'sc, 'z) self" where
  "adopt c self =
     adopt_rest (k_rest c)
       (self\<lparr>fragments := k_fragments c, outputs := k_outputs c, deps := k_deps c,
             argv := k_argv c, disable_cache := k_disable_cache c\<rparr>)"

subsection \<open>\<^verbatim>\<open>compile\<close>\<close>

text \<open>
  The branch of the \<^verbatim>\<open>if\<close>/\<^verbatim>\<open>elif\<close> chain that decides \<^verbatim>\<open>cached\<close>, named
  after the message it prints; \<open>Valid\<close> is the chain falling through.
\<close>

datatype verdict = Valid | DisableCache | ArgvDiffers | FragmentDiffers | DependencyMismatch

definition validity :: "cache \<Rightarrow> ('v, 'sc, 'z) self \<Rightarrow> verdict" where
  "validity c self =
     (if k_disable_cache c then DisableCache
      else if k_argv c \<noteq> argv self then ArgvDiffers
      else if k_fragments c \<noteq> fragments self then FragmentDiffers
      else if deps self \<noteq> k_deps c then DependencyMismatch
      else Valid)"

text \<open>
  \<^verbatim>\<open>self.deps = {}\<close> followed by \<^verbatim>\<open>self.dep(k)\<close> for every key of the cached
  table: the keys of the cache, each with the empty stamp.
\<close>

definition reseed :: "(string \<rightharpoonup> string) \<Rightarrow> ('v, 'sc, 'z) self \<Rightarrow> ('v, 'sc, 'z) self" where
  "reseed cdeps self =
     self\<lparr>deps := (\<lambda>k. case cdeps k of None \<Rightarrow> None | Some _ \<Rightarrow> Some [])\<rparr>"

text \<open>
  The freshness snapshot: the table that \<^verbatim>\<open>resolvedeps\<close> makes of the keys of the
  cached table.
\<close>

definition snapshot_of :: "(string \<Rightarrow> string option) \<Rightarrow> (string \<rightharpoonup> string) \<Rightarrow> (string \<rightharpoonup> string)" where
  "snapshot_of stat cdeps =
     (\<lambda>k. case cdeps k of None \<Rightarrow> None | Some _ \<Rightarrow> Some (datestamp stat k))"

text \<open>The branch taken with a valid cache.\<close>

definition restore ::
  "string \<Rightarrow> cache \<Rightarrow> ('v, 'sc, 'z) self \<Rightarrow> exn + ('v, 'sc, 'z) self" where
  "restore text c self =
     (case process text subber ((adopt c self)\<lparr>subcount := Some (- 1)\<rparr>) of
        Inl e \<Rightarrow> Inl e
      | Inr (out, s1) \<Rightarrow> Inr (s1\<lparr>compiled := Some out\<rparr>))"

text \<open>The branch taken otherwise.\<close>

definition recompute ::
  "('v, 'sc, 'z) runtime \<Rightarrow> string \<Rightarrow> (string \<rightharpoonup> string) \<Rightarrow> ('v, 'sc, 'z) self
     \<Rightarrow> exn + ('v, 'sc, 'z) self" where
  "recompute rt text saveddeps self =
     (case process text (appender rt) (self\<lparr>deps := saveddeps, outputs := []\<rparr>) of
        Inl e \<Rightarrow> Inl e
      | Inr (out, s1) \<Rightarrow> Inr (s1\<lparr>compiled := Some out\<rparr>))"

text \<open>
  What a compile leaves behind: the instance, the branch of the validity chain, the flag
  \<^verbatim>\<open>cached\<close>, the file written (name and text) and the cache file saved (name and
  dictionary), if any.
\<close>

record ('v, 'sc, 'z) compiled_result =
  final :: "('v, 'sc, 'z) self"
  verdict_of :: verdict
  cached :: bool
  written :: "(string \<times> string) option"
  saved :: "(string \<times> cache_dict) option"

text \<open>
  \<^verbatim>\<open>compile\<close> up to the saving of the cache. \<open>text_file\<close> is the reading of
  \<^verbatim>\<open>self.texfilename\<close> (its text or the exception), \<open>pickled\<close> the loading of the
  cache file, \<open>stat1\<close> and \<open>stat2\<close> the datestamps of the files at the first and at the
  second \<^verbatim>\<open>resolvedeps\<close>. The \<^verbatim>\<open>latexcommand\<close> that follows is not part of the
  model.
\<close>

definition compile ::
  "('v, 'sc, 'z) runtime \<Rightarrow> (string \<Rightarrow> string option) \<Rightarrow> (string \<Rightarrow> string option)
     \<Rightarrow> exn + string \<Rightarrow> cache_dict option \<Rightarrow> ('v, 'sc, 'z) self
     \<Rightarrow> exn + ('v, 'sc, 'z) compiled_result" where
  "compile rt stat1 stat2 text_file pickled self =
     (case text_file of
        Inl e \<Rightarrow> Inl e
      | Inr text \<Rightarrow>
          (let c = load_cache pickled
           in case process text scanner (self\<lparr>fragments := []\<rparr>) of
                Inl e \<Rightarrow> Inl e
              | Inr (out0, s1) \<Rightarrow>
                  (let saveddeps = deps s1;
                       s2 = resolvedeps stat1 (reseed (k_deps c) s1);
                       v = validity c s2;
                       is_cached = (v = Valid)
                   in case (if is_cached then restore text c s2
                            else recompute rt text saveddeps s2) of
                        Inl e \<Rightarrow> Inl e
                      | Inr s3 \<Rightarrow>
                          (let s4 = resolvedeps stat2 s3
                           in Inr \<lparr>final = s4,
                                   verdict_of = v,
                                   cached = is_cached,
                                   written =
                                     (if pyptexfilename s3 \<noteq> []
                                      then (case compiled s3 of
                                              None \<Rightarrow> None
                                            | Some t \<Rightarrow> Some (pyptexfilename s3, t))
                                      else None),
                                   saved =
                                     (if \<not> is_cached
                                      then Some (cachefilename s4, to_cache_dict s4)
                                      else None)\<rparr>))))"

text \<open>
  The instance as the constructor leaves it when it calls \<^verbatim>\<open>compile\<close>. The file
  names, which the constructor derives from \<^verbatim>\<open>texfilename\<close>, and the further
  entries it sets are given; \<open>module_file\<close> is \<^verbatim>\<open>__file__\<close>, the first dependency.
\<close>

definition new_instance ::
  "string \<Rightarrow> string \<Rightarrow> string \<Rightarrow> string \<Rightarrow> string list \<Rightarrow> (string \<times> fval) list \<Rightarrow> string
     \<Rightarrow> 'sc \<Rightarrow> (nat \<Rightarrow> figure) \<Rightarrow> nat list \<Rightarrow> ('v, 'sc) pyptex" where
  "new_instance tex pyptexf cachef gend args more_entries module_file glob fs managers =
     snd (dep module_file
       \<lparr>texfilename = tex, pyptexfilename = pyptexf, cachefilename = cachef,
        includegraphics = CHR 0x5C # ''includegraphics[width='' @ CHR 0x5C # ''textwidth]{%s}'',
        gendir = gend, gencount = 0, disable_cache = False, autoshow = True,
        deps = Map.empty, lc = 0, argv = args, fragments = [], outputs = [],
        subcount = None, compiled = None, others = more_entries, accum = [],
        globals = glob, figs = fs, fig_managers = managers\<rparr>)"

subsection \<open>The walk as a list of tokens\<close>

text \<open>
  What the walk meets in a text, from the text alone: literal text (a copied character, a
  comment line, the \<^verbatim>\<open>@\<close> of an escaped marker) and fragments, each with the three
  arguments that \<^verbatim>\<open>do_work\<close> passes to the runner. \<open>tokens_from\<close> follows the
  recursion of \<open>re_sub\<close>; \<open>run_tokens\<close> hands the tokens to a runner.
\<close>

datatype token = Lit string | Visit string nat string

fun token_of :: "pmatch \<Rightarrow> nat \<Rightarrow> token" where
  "token_of (MComment s) nl = Lit s"
| "token_of MEscape nl = Lit ''@''"
| "token_of (MFragment pre opt z post) nl =
     Visit z (nl + newlines pre) (case opt of None \<Rightarrow> [] | Some s \<Rightarrow> s)"

function tokens_from :: "char option \<Rightarrow> nat \<Rightarrow> string \<Rightarrow> token list" where
  "tokens_from prev nl [] = []"
| "tokens_from prev nl (c # cs) =
     (case pypparser_match prev (c # cs) of
        None \<Rightarrow> Lit [c] # tokens_from (Some c) (nl + newlines [c]) cs
      | Some m \<Rightarrow>
          token_of m nl #
          tokens_from (Some (last (match_text m))) (nl + newlines (match_text m))
            (drop (length (match_text m)) (c # cs)))"
  by pat_completeness auto
termination
proof (relation "measure (\<lambda>(prev, nl, s). length s)")
  show "wf (measure (\<lambda>(prev, nl, s). length s))" by simp
next
  fix prev :: "char option" and nl :: nat and c cs
  show "((Some c, nl + newlines [c], cs), (prev, nl, c # cs)) \<in> measure (\<lambda>(prev, nl, s). length s)"
    by simp
next
  fix prev :: "char option" and nl :: nat and c cs m
  assume "pypparser_match prev (c # cs) = Some m"
  then have "match_text m \<noteq> []"
    by (auto simp: pypparser_match_def comment_alt_def escape_alt_def fragment_alt_def
        split: option.splits list.splits if_splits prod.splits)
  then have "0 < length (match_text m)" by simp
  then show "((Some (last (match_text m)), nl + newlines (match_text m),
               drop (length (match_text m)) (c # cs)), (prev, nl, c # cs))
          \<in> measure (\<lambda>(prev, nl, s). length s)"
    by (cases "length (match_text m)") auto
qed

definition tokens :: "string \<Rightarrow> token list" where
  "tokens S = tokens_from None 0 S"

fun run_tokens ::
  "('v, 'sc, 'z) runner \<Rightarrow> token list \<Rightarrow> ('v, 'sc, 'z) self \<Rightarrow> exn + string \<times> ('v, 'sc, 'z) self" where
  "run_tokens runner [] self = Inr ([], self)"
| "run_tokens runner (Lit t # ts) self =
     (case run_tokens runner ts self of
        Inl e \<Rightarrow> Inl e
      | Inr (out, s1) \<Rightarrow> Inr (t @ out, s1))"
| "run_tokens runner (Visit z k o' # ts) self =
     (case runner z k o' (self\<lparr>lc := lc self + newlines z + 1\<rparr>) of
        Inl e \<Rightarrow> Inl e
      | Inr (r, s1) \<Rightarrow>
          (case run_tokens runner ts s1 of
             Inl e \<Rightarrow> Inl e
           | Inr (out, s2) \<Rightarrow> Inr (r @ out, s2)))"

text \<open>The fragments of a token list, in order: body, line offset and option.\<close>

fun visits :: "token list \<Rightarrow> (string \<times> nat \<times> string) list" where
  "visits [] = []"
| "visits (Lit t # ts) = visits ts"
| "visits (Visit z k o' # ts) = (z, k, o') # visits ts"

text \<open>
  A runner under observation: the extension slot of the instance keeps the list of the
  calls made so far, and each call that returns adds its three arguments.
\<close>

type_synonym call_log = "(string \<times> nat \<times> string) list"

definition logged :: "('v, 'sc, call_log) runner \<Rightarrow> ('v, 'sc, call_log) runner" where
  "logged h C k o' self =
     (case h C k o' self of
        Inl e \<Rightarrow> Inl e
      | Inr (r, s1) \<Rightarrow> Inr (r, pyptex.more_update (\<lambda>_. pyptex.more self @ [(C, k, o')]) s1))"

text \<open>
  Positional substitution, in the words of the specification: the fragment number \<open>i\<close>
  of the text is replaced by the entry \<open>i\<close> of the outputs when its option is empty and
  by its own body when its option is \<^verbatim>\<open>verbatim\<close>; literal text is kept.
\<close>

fun fill :: "string list \<Rightarrow> nat \<Rightarrow> token list \<Rightarrow> string" where
  "fill outs i [] = []"
| "fill outs i (Lit t # ts) = t @ fill outs i ts"
| "fill outs i (Visit z k o' # ts) =
     (if o' = [] then outs ! i else if o' = ''verbatim'' then z else []) @ fill outs (Suc i) ts"


text \<open>
  What fragment code is expected to leave alone: the lists \<^verbatim>\<open>outputs\<close> and
  \<^verbatim>\<open>fragments\<close>, \<^verbatim>\<open>argv\<close> and the flag \<^verbatim>\<open>disable_cache\<close>.
\<close>

definition keeps :: "('v, 'sc, 'z) self \<Rightarrow> ('v, 'sc, 'z) self \<Rightarrow> bool" where
  "keeps s s' =
     (outputs s' = outputs s \<and> fragments s' = fragments s \<and> argv s' = argv s
      \<and> disable_cache s' = disable_cache s)"

definition well_behaved :: "('v, 'sc, 'z) runtime \<Rightarrow> bool" where
  "well_behaved rt =
     (\<forall>S s. (case py_eval rt S s of Inl e \<Rightarrow> True | Inr (v, s') \<Rightarrow> keeps s s')
          \<and> (case py_exec rt S s of Inl e \<Rightarrow> True | Inr s' \<Rightarrow> keeps s s'))"

subsection \<open>A small runtime and document state for concrete runs\<close>

text \<open>
  A stand-in for the interpreter, used where a statement is run on a concrete document:
  a text containing \<^verbatim>\<open>=\<close> is a statement, whose execution is recorded in the scope;
  any other text is an expression whose value is its own text; the math renderer answers
  \<^verbatim>\<open>latex\<close> for every value.
\<close>

definition demo_rt :: "(nat, string list, 'z) runtime" where
  "demo_rt =
     \<lparr>compiles_as_expr = (\<lambda>S. CHR ''='' \<notin> set S),
      py_eval = (\<lambda>S self. Inr (PStr (dropWhile (\<lambda>c. c = newline) S), self)),
      py_exec = (\<lambda>S self. Inr (self\<lparr>globals := globals self @ [dropWhile (\<lambda>c. c = newline) S]\<rparr>)),
      sympy_latex = (\<lambda>v. Inr ''latex''),
      str_percent = (\<lambda>fmt a. Inr (fmt @ a)),
      touch = (\<lambda>f. None)\<rparr>"

definition no_figure :: figure where
  "no_figure = \<lparr>FIGNAME = None, IG = None, drawn = None\<rparr>"

definition demo_self :: "(nat, string list) pyptex" where
  "demo_self =
     new_instance ''a.tex'' ''a.pyptex'' ''a.pickle'' ''a-generated'' [] [] ''pyptex.py''
       [] (\<lambda>i. no_figure) []"

definition plain_fragment :: "string \<Rightarrow> string" where
  \<comment> \<open>a body between the marker with an opening brace and a closing brace\<close>
  "plain_fragment body = CHR ''@'' # CHR ''{'' # body @ ''}''"

definition demo_text :: string where
  \<comment> \<open>two lines: a plain fragment on the first, a verbatim fragment on the second\<close>
  "demo_text = ''a '' @ plain_fragment ''1+1'' @ [newline] @ ''@[verbatim]{x=1} b''"

definition demo_cache :: cache_dict where
  \<comment> \<open>a cache file for \<open>demo_text\<close>, written by hand, with no dependencies\<close>
  "demo_cache =
     \<lparr>c_fragments = Some [''1+1'', ''x=1''], c_outputs = Some [''2'', []],
      c_deps = Some Map.empty, c_argv = Some [], c_disable_cache = Some False,
      c_rest = None\<rparr>"

definition no_stat :: "string \<Rightarrow> string option" where
  \<comment> \<open>a file system in which no file can be probed\<close>
  "no_stat k = None"

section \<open>Properties\<close>

subsection \<open>The walk and its tokens\<close>

lemma do_work_token:
  "do_work runner m nl self =
     (case token_of m nl of
        Lit t \<Rightarrow> Inr (t, self)
      | Visit z k o' \<Rightarrow> runner z k o' (self\<lparr>lc := lc self + newlines z + 1\<rparr>))"
  by (cases m) (simp_all add: do_work_def Let_def)

lemma re_sub_tokens:
  "re_sub (do_work runner) prev nl s self = run_tokens runner (tokens_from prev nl s) self"
proof (induction prev nl s arbitrary: self rule: tokens_from.induct)
  case (1 prev nl)
  show ?case by simp
next
  case (2 prev nl c cs)
  show ?case
  proof (cases "pypparser_match prev (c # cs)")
    case None
    then show ?thesis using "2.IH"(1) by (simp split: sum.splits)
  next
    case (Some m)
    show ?thesis
    proof (cases "token_of m nl")
      case (Lit t)
      then show ?thesis using Some "2.IH"(2) [OF Some]
        by (simp add: do_work_token)
    next
      case (Visit z k o')
      then show ?thesis using Some "2.IH"(2) [OF Some]
        by (simp add: do_work_token split: sum.splits)
    qed
  qed
qed

lemma process_tokens: "process S runner self = run_tokens runner (tokens S) self"
  by (simp add: process_def tokens_def re_sub_tokens)

lemma run_tokens_logged:
  "run_tokens (logged h) ts self = Inr (out, s1) \<Longrightarrow> pyptex.more s1 = pyptex.more self @ visits ts"
proof (induction ts arbitrary: self out rule: visits.induct)
  case 1
  then show ?case by simp
next
  case (2 t ts)
  then show ?case by (auto split: sum.splits)
next
  case (3 z k o' ts)
  from "3.prems" obtain r s2 out2 where
    h: "logged h z k o' (self\<lparr>lc := lc self + newlines z + 1\<rparr>) = Inr (r, s2)"
    and rest: "run_tokens (logged h) ts s2 = Inr (out2, s1)"
    by (auto split: sum.splits)
  from h have "pyptex.more s2 = pyptex.more self @ [(z, k, o')]"
    by (auto simp: logged_def split: sum.splits)
  with "3.IH" [OF rest] show ?case by simp
qed






lemmas match_defs =
  pypparser_match_def comment_alt_def escape_alt_def fragment_alt_def option_tag_def
  simple_body_def triple_body_def not_brace_def not_newline_def is_letter_def
  newlines_def newline_def plain_fragment_def

lemma tokens_demo_text:
  "tokens demo_text =
     [Lit ''a'', Lit '' '', Visit ''1+1'' 0 [], Lit [newline], Visit ''x=1'' 1 ''verbatim'',
      Lit '' '', Lit ''b'']"
  by (simp add: tokens_def demo_text_def match_defs)

subsection \<open>What running and rendering a fragment leave alone\<close>

lemma keeps_refl: "keeps s s"
  by (simp add: keeps_def)

lemma keeps_trans: "keeps a b \<Longrightarrow> keeps b c \<Longrightarrow> keeps a c"
  by (simp add: keeps_def)

lemma genname_keeps: "keeps s (snd (genname s))"
  by (simp add: genname_def keeps_def Let_def)

lemma dep_keeps: "keeps s (snd (dep k s))"
  by (simp add: dep_def keeps_def)

lemma set_fig_keeps: "keeps s (set_fig i f s)"
  by (simp add: set_fig_def keeps_def)

lemma fig_name_step_keeps:
  assumes "fig_name_step rt i s = Inr (n, s')"
  shows "keeps s s'"
proof (cases "FIGNAME (figs s i) = None")
  case True
  with assms have
    "s' = set_fig i (\<lambda>f. f\<lparr>FIGNAME := Some (fst (genname s))\<rparr>)
            (snd (dep (fst (genname s)) (snd (genname s))))"
    by (cases "touch rt (fst (genname s))") (auto simp: fig_name_step_def)
  then show ?thesis
    using genname_keeps [of s] dep_keeps [of "snd (genname s)" "fst (genname s)"]
      set_fig_keeps [of "snd (dep (fst (genname s)) (snd (genname s)))" i]
    by (simp add: keeps_def)
next
  case False
  with assms have "s' = s" by (simp add: fig_name_step_def)
  then show ?thesis by (simp add: keeps_refl)
qed

lemma fig_ig_step_keeps:
  assumes "fig_ig_step rt i n s = Inr s'"
  shows "keeps s s'"
proof (cases "IG (figs s i) = None")
  case True
  with assms obtain ig where "s' = set_fig i (\<lambda>f. f\<lparr>IG := Some ig\<rparr>) s"
    by (cases n; cases "str_percent rt (includegraphics s) (the n)")
      (auto simp: fig_ig_step_def)
  then show ?thesis by (simp add: set_fig_keeps)
next
  case False
  with assms have "s' = s" by (simp add: fig_ig_step_def)
  then show ?thesis by (simp add: keeps_refl)
qed

lemma fig_drawn_step_keeps: "keeps s (fig_drawn_step i s)"
  by (simp add: fig_drawn_step_def keeps_refl set_fig_keeps)

lemma setupfig_steps:
  assumes "setupfig rt i s = Inr (ig, s')"
  shows "\<exists>n s1 s2. fig_name_step rt i s = Inr (n, s1) \<and> fig_ig_step rt i n s1 = Inr s2
           \<and> s' = fig_drawn_step i s2 \<and> IG (figs s' i) = Some ig"
proof (cases "fig_name_step rt i s")
  case (Inl e)
  with assms show ?thesis by (simp add: setupfig_def)
next
  case (Inr p)
  obtain n s1 where p: "p = (n, s1)" by (cases p)
  show ?thesis
  proof (cases "fig_ig_step rt i n s1")
    case (Inl e)
    with assms Inr p show ?thesis by (simp add: setupfig_def)
  next
    case b: (Inr s2)
    show ?thesis
    proof (cases "IG (figs (fig_drawn_step i s2) i)")
      case None
      with assms Inr p b show ?thesis by (simp add: setupfig_def)
    next
      case (Some ig')
      with assms Inr p b show ?thesis by (simp add: setupfig_def)
    qed
  qed
qed

lemma setupfig_keeps:
  assumes "setupfig rt i s = Inr (ig, s')"
  shows "keeps s s'"
proof -
  from setupfig_steps [OF assms] obtain n s1 s2 where
    a: "fig_name_step rt i s = Inr (n, s1)" and
    b: "fig_ig_step rt i n s1 = Inr s2" and
    c: "s' = fig_drawn_step i s2"
    by blast
  show ?thesis
    using fig_name_step_keeps [OF a] fig_ig_step_keeps [OF b] fig_drawn_step_keeps [of s2 i] c
    by (simp add: keeps_def)
qed

lemma print_keeps: "keeps s (print vs s)"
  by (simp add: print_def keeps_def)

lemma showall_loop_keeps: "showall_loop rt is s = Inr s' \<Longrightarrow> keeps s s'"
proof (induction "is" arbitrary: s)
  case Nil
  then show ?case by (simp add: keeps_refl)
next
  case (Cons i "is")
  from Cons.prems obtain ig s1 where
    a: "setupfig rt i s = Inr (ig, s1)" and
    b: "showall_loop rt is (if drawn (figs s1 i) = Some True then s1 else print [PFigure i] s1) = Inr s'"
    by (auto split: sum.splits)
  have "keeps s1 (if drawn (figs s1 i) = Some True then s1 else print [PFigure i] s1)"
    by (simp add: keeps_refl print_keeps)
  with setupfig_keeps [OF a] Cons.IH [OF b] show ?case
    by (blast intro: keeps_trans)
qed

lemma showall_keeps: "showall rt s = Inr s' \<Longrightarrow> keeps s s'"
  by (simp add: showall_def showall_loop_keeps)

lemma mylatex_keeps: "mylatex rt X s = Inr (t, s') \<Longrightarrow> keeps s s'"
proof (cases X)
  case (PFigure i)
  assume "mylatex rt X s = Inr (t, s')"
  with PFigure obtain ig s1 where
    a: "setupfig rt i s = Inr (ig, s1)" and b: "s' = set_fig i (\<lambda>f. f\<lparr>drawn := Some True\<rparr>) s1"
    by (auto simp: mylatex_def split: sum.splits)
  from setupfig_keeps [OF a] b show ?thesis by (simp add: keeps_def set_fig_def)
qed (auto simp: mylatex_def keeps_def split: sum.splits)

lemma join_mylatex_keeps: "join_mylatex rt Xs s = Inr (t, s') \<Longrightarrow> keeps s s'"
proof (induction Xs arbitrary: s t)
  case Nil
  then show ?case by (simp add: keeps_refl)
next
  case (Cons X Xs)
  from Cons.prems obtain t1 s1 t2 where
    a: "mylatex rt X s = Inr (t1, s1)" and b: "join_mylatex rt Xs s1 = Inr (t2, s')"
    by (auto split: sum.splits)
  from mylatex_keeps [OF a] Cons.IH [OF b] show ?case by (rule keeps_trans)
qed

lemma well_behaved_eval: "well_behaved rt \<Longrightarrow> py_eval rt S s = Inr (v, s') \<Longrightarrow> keeps s s'"
  unfolding well_behaved_def
  by (drule spec [of _ S], drule spec [of _ s]) simp

lemma well_behaved_exec: "well_behaved rt \<Longrightarrow> py_exec rt S s = Inr s' \<Longrightarrow> keeps s s'"
  unfolding well_behaved_def
  by (drule spec [of _ S], drule spec [of _ s]) simp

lemma run_keeps:
  assumes wb: "well_behaved rt" and r: "run rt S k s = Inr (vs, s')"
  shows "keeps s s'"
proof (cases "compiles_as_expr rt (replicate k newline @ S)")
  case True
  with r obtain ret s1 s2 where
    a: "py_eval rt (replicate k newline @ S) (s\<lparr>accum := []\<rparr>) = Inr (ret, s1)" and
    b: "(if autoshow (print [ret] s1) then showall rt (print [ret] s1) else Inr (print [ret] s1)) = Inr s2" and
    c: "s' = s2"
    by (auto simp: run_def Let_def split: sum.splits)
  have k1: "keeps (s\<lparr>accum := []\<rparr>) s1" by (rule well_behaved_eval [OF wb a])
  have k2: "keeps (print [ret] s1) s2"
    using b by (auto simp: keeps_refl showall_keeps split: if_splits)
  from k1 k2 print_keeps [of s1 "[ret]"] c show ?thesis by (simp add: keeps_def)
next
  case False
  with r obtain s1 s2 where
    a: "py_exec rt (replicate k newline @ S) (s\<lparr>accum := []\<rparr>) = Inr s1" and
    b: "(if autoshow s1 then showall rt s1 else Inr s1) = Inr s2" and
    c: "s' = s2"
    by (auto simp: run_def Let_def split: sum.splits)
  have k1: "keeps (s\<lparr>accum := []\<rparr>) s1" by (rule well_behaved_exec [OF wb a])
  have k2: "keeps s1 s2"
    using b by (auto simp: keeps_refl showall_keeps split: if_splits)
  from k1 k2 c show ?thesis by (simp add: keeps_def)
qed

subsection \<open>The three runners over the tokens of a text\<close>

lemma py_index_last: "py_index (xs @ [x]) (- 1) = Inr x"
  by (simp add: py_index_def)

lemma appender_result:
  assumes "run rt C k s = Inr (result, s1)" and "join_mylatex rt result s1 = Inr (joined, s2)"
  shows "appender rt C k o' s =
         Inr (if o' = [] then joined else if o' = ''verbatim'' then C else [],
              s2\<lparr>outputs := outputs s2 @ [joined]\<rparr>)"
  using assms by (simp add: appender_def Let_def py_index_last)

lemma appender_steps:
  assumes "appender rt C k o' s = Inr (r, s')"
  shows "\<exists>result s1 joined s2. run rt C k s = Inr (result, s1)
           \<and> join_mylatex rt result s1 = Inr (joined, s2)
           \<and> s' = s2\<lparr>outputs := outputs s2 @ [joined]\<rparr>
           \<and> r = (if o' = [] then joined else if o' = ''verbatim'' then C else [])"
proof (cases "run rt C k s")
  case (Inl e)
  with assms show ?thesis by (simp add: appender_def)
next
  case (Inr p)
  obtain result s1 where p: "p = (result, s1)" by (cases p)
  show ?thesis
  proof (cases "join_mylatex rt result s1")
    case (Inl e)
    with assms Inr p show ?thesis by (simp add: appender_def)
  next
    case b: (Inr q)
    obtain joined s2 where q: "q = (joined, s2)" by (cases q)
    from appender_result [of rt C k s result s1 joined s2 o'] Inr p b q assms
    show ?thesis by auto
  qed
qed

lemma appender_keeps:
  assumes wb: "well_behaved rt" and a: "appender rt C k o' s = Inr (r, s')"
  shows "\<exists>j. outputs s' = outputs s @ [j]
           \<and> r = (if o' = [] then j else if o' = ''verbatim'' then C else [])
           \<and> fragments s' = fragments s \<and> argv s' = argv s
           \<and> disable_cache s' = disable_cache s"
proof -
  from appender_steps [OF a] obtain result s1 joined s2 where
    r: "run rt C k s = Inr (result, s1)" and
    j: "join_mylatex rt result s1 = Inr (joined, s2)" and
    e: "s' = s2\<lparr>outputs := outputs s2 @ [joined]\<rparr>" and
    v: "r = (if o' = [] then joined else if o' = ''verbatim'' then C else [])"
    by blast
  from run_keeps [OF wb r] join_mylatex_keeps [OF j] e v show ?thesis
    by (simp add: keeps_def)
qed

lemma run_tokens_appender:
  assumes wb: "well_behaved rt"
  shows "run_tokens (appender rt) ts s = Inr (out, s') \<Longrightarrow>
         (\<exists>js. length js = length (visits ts) \<and> outputs s' = outputs s @ js)
         \<and> out = fill (outputs s') (length (outputs s)) ts
         \<and> fragments s' = fragments s \<and> argv s' = argv s
         \<and> disable_cache s' = disable_cache s"
proof (induction ts arbitrary: s out rule: visits.induct)
  case 1
  then show ?case by simp
next
  case (2 t ts)
  from "2.prems" obtain out1 where
    a: "run_tokens (appender rt) ts s = Inr (out1, s')" and o: "out = t @ out1"
    by (auto split: sum.splits)
  from "2.IH" [OF a] o show ?case by simp
next
  case (3 z k o' ts)
  let ?s0 = "s\<lparr>lc := lc s + newlines z + 1\<rparr>"
  from "3.prems" obtain r s1 out1 where
    a: "appender rt z k o' ?s0 = Inr (r, s1)" and
    b: "run_tokens (appender rt) ts s1 = Inr (out1, s')" and
    o: "out = r @ out1"
    by (auto split: sum.splits)
  from appender_keeps [OF wb a] obtain j where
    j: "outputs s1 = outputs s @ [j]" and
    r: "r = (if o' = [] then j else if o' = ''verbatim'' then z else [])" and
    f: "fragments s1 = fragments s" "argv s1 = argv s" "disable_cache s1 = disable_cache s"
    by auto
  from "3.IH" [OF b] obtain js where
    js: "length js = length (visits ts)" "outputs s' = outputs s1 @ js" and
    o1: "out1 = fill (outputs s') (length (outputs s1)) ts" and
    g: "fragments s' = fragments s1" "argv s' = argv s1" "disable_cache s' = disable_cache s1"
    by auto
  have "outputs s' = outputs s @ (j # js)" using j js by simp
  moreover have "length (j # js) = length (visits (Visit z k o' # ts))" using js by simp
  moreover have "outputs s' ! length (outputs s) = j" using j js by (simp add: nth_append)
  ultimately show ?case using o o1 r j f g
    by (auto simp del: visits.simps)
qed

lemma run_tokens_scanner:
  "run_tokens scanner ts s = Inr (out, s') \<Longrightarrow>
   \<exists>n. s' = s\<lparr>lc := n, fragments := fragments s @ map fst (visits ts)\<rparr>"
proof (induction ts arbitrary: s out rule: visits.induct)
  case 1
  then have "s' = s\<lparr>lc := lc s, fragments := fragments s @ map fst (visits [])\<rparr>" by simp
  then show ?case by blast
next
  case (2 t ts)
  then show ?case by (auto split: sum.splits)
next
  case (3 z k o' ts)
  let ?s0 = "s\<lparr>lc := lc s + newlines z + 1\<rparr>"
  from "3.prems" obtain r s1 out1 where
    a: "scanner z k o' ?s0 = Inr (r, s1)" and
    b: "run_tokens scanner ts s1 = Inr (out1, s')"
    by (auto split: sum.splits)
  from a have s1: "s1 = ?s0\<lparr>fragments := fragments s @ [z]\<rparr>"
    by (auto simp: scanner_def split: if_splits)
  from "3.IH" [OF b] obtain n where "s' = s1\<lparr>lc := n, fragments := fragments s1 @ map fst (visits ts)\<rparr>"
    by blast
  with s1 have "s' = s\<lparr>lc := n, fragments := fragments s @ map fst (visits (Visit z k o' # ts))\<rparr>"
    by simp
  then show ?case by blast
qed

lemma run_tokens_subber:
  "subcount s = Some (int i - 1) \<Longrightarrow> i + length (visits ts) \<le> length (outputs s) \<Longrightarrow>
   \<exists>n. run_tokens subber ts s =
        Inr (fill (outputs s) i ts,
             s\<lparr>lc := n, subcount := Some (int (i + length (visits ts)) - 1)\<rparr>)"
proof (induction ts arbitrary: s i rule: visits.induct)
  case 1
  then have "run_tokens subber [] s =
     Inr (fill (outputs s) i [], s\<lparr>lc := lc s, subcount := Some (int (i + length (visits [])) - 1)\<rparr>)"
    by simp
  then show ?case by blast
next
  case (2 t ts)
  from "2.IH" [OF "2.prems"(1)] "2.prems"(2) show ?case by auto
next
  case (3 z k o' ts)
  let ?s1 = "s\<lparr>lc := lc s + newlines z + 1, subcount := Some (int (Suc i) - 1)\<rparr>"
  have i: "i < length (outputs s)" using "3.prems"(2) by simp
  have a: "subber z k o' (s\<lparr>lc := lc s + newlines z + 1\<rparr>) =
           Inr (if o' = [] then outputs s ! i else if o' = ''verbatim'' then z else [], ?s1)"
    using "3.prems"(1) i by (simp add: subber_def Let_def py_index_def)
  have "subcount ?s1 = Some (int (Suc i) - 1)" by simp
  moreover have "Suc i + length (visits ts) \<le> length (outputs ?s1)" using "3.prems"(2) by simp
  ultimately obtain n where
    "run_tokens subber ts ?s1 =
       Inr (fill (outputs ?s1) (Suc i) ts,
            ?s1\<lparr>lc := n, subcount := Some (int (Suc i + length (visits ts)) - 1)\<rparr>)"
    using "3.IH" [of ?s1 "Suc i"] by blast
  with a have "run_tokens subber (Visit z k o' # ts) s =
       Inr (fill (outputs s) i (Visit z k o' # ts),
            s\<lparr>lc := n, subcount := Some (int (i + length (visits (Visit z k o' # ts))) - 1)\<rparr>)"
    by simp
  then show ?case by blast
qed

subsection \<open>The steps of a compile\<close>

lemma compile_steps:
  assumes "compile rt stat1 stat2 (Inr text) pickled self = Inr res"
  shows "\<exists>out0 s1 s3.
           process text scanner (self\<lparr>fragments := []\<rparr>) = Inr (out0, s1)
         \<and> (if validity (load_cache pickled) (resolvedeps stat1 (reseed (k_deps (load_cache pickled)) s1)) = Valid
             then restore text (load_cache pickled) (resolvedeps stat1 (reseed (k_deps (load_cache pickled)) s1))
             else recompute rt text (deps s1) (resolvedeps stat1 (reseed (k_deps (load_cache pickled)) s1)))
            = Inr s3
         \<and> final res = resolvedeps stat2 s3
         \<and> verdict_of res = validity (load_cache pickled) (resolvedeps stat1 (reseed (k_deps (load_cache pickled)) s1))
         \<and> cached res = (verdict_of res = Valid)
         \<and> written res = (if pyptexfilename s3 \<noteq> []
                           then (case compiled s3 of None \<Rightarrow> None | Some t \<Rightarrow> Some (pyptexfilename s3, t))
                           else None)
         \<and> saved res = (if \<not> cached res then Some (cachefilename (final res), to_cache_dict (final res)) else None)"
proof (cases "process text scanner (self\<lparr>fragments := []\<rparr>)")
  case (Inl e)
  with assms show ?thesis by (simp add: compile_def Let_def)
next
  case (Inr p)
  obtain out0 s1 where p: "p = (out0, s1)" by (cases p)
  let ?c = "load_cache pickled"
  let ?s2 = "resolvedeps stat1 (reseed (k_deps ?c) s1)"
  show ?thesis
  proof (cases "if validity ?c ?s2 = Valid then restore text ?c ?s2 else recompute rt text (deps s1) ?s2")
    case (Inl e)
    with assms Inr p show ?thesis by (simp add: compile_def Let_def)
  next
    case b: (Inr s3)
    from assms Inr p b have
      "res = \<lparr>final = resolvedeps stat2 s3, verdict_of = validity ?c ?s2,
              cached = (validity ?c ?s2 = Valid),
              written = (if pyptexfilename s3 \<noteq> []
                         then (case compiled s3 of None \<Rightarrow> None | Some t \<Rightarrow> Some (pyptexfilename s3, t))
                         else None),
              saved = (if \<not> (validity ?c ?s2 = Valid)
                       then Some (cachefilename (resolvedeps stat2 s3), to_cache_dict (resolvedeps stat2 s3))
                       else None)\<rparr>"
      by (simp add: compile_def Let_def)
    with Inr p b show ?thesis by simp
  qed
qed

lemma deps_resolve_reseed: "deps (resolvedeps stat (reseed cdeps s)) = snapshot_of stat cdeps"
  by (auto simp: resolvedeps_def reseed_def snapshot_of_def fun_eq_iff split: option.splits)

lemma scan_fields:
  assumes "process text scanner (self\<lparr>fragments := []\<rparr>) = Inr (out0, s1)"
  shows "fragments s1 = map fst (visits (tokens text))" "argv s1 = argv self"
    "deps s1 = deps self" "disable_cache s1 = disable_cache self" "outputs s1 = outputs self"
    "globals s1 = globals self" "accum s1 = accum self"
proof -
  from assms obtain n where
    "s1 = self\<lparr>fragments := [], lc := n, fragments := [] @ map fst (visits (tokens text))\<rparr>"
    using run_tokens_scanner [of "tokens text" "self\<lparr>fragments := []\<rparr>" out0 s1]
    by (auto simp: process_tokens)
  then show "fragments s1 = map fst (visits (tokens text))" "argv s1 = argv self"
    "deps s1 = deps self" "disable_cache s1 = disable_cache self" "outputs s1 = outputs self"
    "globals s1 = globals self" "accum s1 = accum self"
    by simp_all
qed

lemmas demo_defs =
  demo_self_def new_instance_def dep_def demo_rt_def demo_cache_def no_stat_def
  load_cache_def with_defaults_def empty_dict_def

lemmas run_defs =
  scanner_def subber_def appender_def run_def showall_def print_def mylatex_def py_index_def
  Let_def adopt_def adopt_rest_def restore_def recompute_def resolvedeps_def reseed_def
  validity_def datestamp_def to_cache_dict_def

subsection \<open>Two passes meet the same fragments\<close>

text \<open>
  Claim C4. Two walks over the same text, with any two runners under observation and
  from any two instances, that both come to their end have called their runners with the
  same bodies, line offsets and options in the same order: the calls are the fragments
  of the text, which the text alone determines. The scan pass and a substituting pass are
  an instance.
\<close>

theorem same_visits:
  assumes "process S (logged h1) s1 = Inr (out1, t1)"
    and "process S (logged h2) s2 = Inr (out2, t2)"
    and "pyptex.more s1 = []" and "pyptex.more s2 = []"
  shows "pyptex.more t1 = pyptex.more t2 \<and> pyptex.more t1 = visits (tokens S)"
  using assms run_tokens_logged [of h1 "tokens S" s1 out1 t1]
    run_tokens_logged [of h2 "tokens S" s2 out2 t2]
  by (simp add: process_tokens)

theorem same_visits_witness:
  "\<exists>out1 t1 out2 t2.
     process demo_text (logged scanner) (pyptex.extend demo_self []) = Inr (out1, t1)
     \<and> process demo_text (logged (appender demo_rt)) (pyptex.extend demo_self []) = Inr (out2, t2)
     \<and> pyptex.more t1 = pyptex.more t2
     \<and> pyptex.more t1 = [(''1+1'', 0, []), (''x=1'', 1, ''verbatim'')]"
proof -
  obtain out1 t1 where
    a: "process demo_text (logged scanner) (pyptex.extend demo_self []) = Inr (out1, t1)"
    by (simp add: process_tokens tokens_demo_text logged_def scanner_def)
  obtain out2 t2 where
    b: "process demo_text (logged (appender demo_rt)) (pyptex.extend demo_self []) = Inr (out2, t2)"
    by (simp add: process_tokens tokens_demo_text logged_def appender_def run_def demo_rt_def
        Let_def showall_def demo_self_def new_instance_def dep_def pyptex.defs print_def
        mylatex_def py_index_def newline_def)
  have m: "pyptex.more (pyptex.extend demo_self ([] :: call_log)) = []"
    by (simp add: pyptex.defs demo_self_def new_instance_def dep_def)
  from same_visits [OF a b m m] a b show ?thesis by (auto simp: tokens_demo_text)
qed

subsection \<open>Comment lines and escaped markers\<close>




subsection \<open>The validity of the cache\<close>

text \<open>
  Claim C1. In a compile that completes, the cache is used exactly when the four checks
  hold: the loaded \<^verbatim>\<open>disable_cache\<close> is false, the loaded \<^verbatim>\<open>argv\<close> is the
  \<^verbatim>\<open>argv\<close> of the instance, the loaded \<^verbatim>\<open>fragments\<close> are the bodies that the
  scan pass collects from the text, and the stamps resolved for the keys of the loaded
  \<^verbatim>\<open>deps\<close> are the loaded \<^verbatim>\<open>deps\<close>. The checks are made in this order, and
  the branch taken (the message printed) is that of the first check that fails.
\<close>

theorem validity_decision:
  assumes "compile rt stat1 stat2 (Inr text) pickled self = Inr res"
  shows "(cached res \<longleftrightarrow>
            \<not> k_disable_cache (load_cache pickled)
          \<and> k_argv (load_cache pickled) = argv self
          \<and> k_fragments (load_cache pickled) = map fst (visits (tokens text))
          \<and> snapshot_of stat1 (k_deps (load_cache pickled)) = k_deps (load_cache pickled))
       \<and> verdict_of res =
           (if k_disable_cache (load_cache pickled) then DisableCache
            else if k_argv (load_cache pickled) \<noteq> argv self then ArgvDiffers
            else if k_fragments (load_cache pickled) \<noteq> map fst (visits (tokens text)) then FragmentDiffers
            else if snapshot_of stat1 (k_deps (load_cache pickled)) \<noteq> k_deps (load_cache pickled)
                 then DependencyMismatch
            else Valid)"
proof -
  from compile_steps [OF assms] obtain out0 s1 where
    sc: "process text scanner (self\<lparr>fragments := []\<rparr>) = Inr (out0, s1)" and
    v: "verdict_of res = validity (load_cache pickled) (resolvedeps stat1 (reseed (k_deps (load_cache pickled)) s1))" and
    c: "cached res = (verdict_of res = Valid)"
    by blast
  have f: "fragments (resolvedeps stat1 (reseed (k_deps (load_cache pickled)) s1)) = map fst (visits (tokens text))"
    "argv (resolvedeps stat1 (reseed (k_deps (load_cache pickled)) s1)) = argv self"
    using scan_fields [OF sc] by (simp_all add: resolvedeps_def reseed_def)
  show ?thesis
    unfolding c v validity_def f deps_resolve_reseed
    by simp
qed

theorem validity_decision_witness:
  "\<exists>res. compile demo_rt no_stat no_stat (Inr demo_text) (Some demo_cache) demo_self = Inr res
         \<and> cached res \<and> verdict_of res = Valid
         \<and> \<not> k_disable_cache (load_cache (Some demo_cache))
         \<and> k_argv (load_cache (Some demo_cache)) = argv demo_self
         \<and> k_fragments (load_cache (Some demo_cache)) = map fst (visits (tokens demo_text))
         \<and> snapshot_of no_stat (k_deps (load_cache (Some demo_cache))) = k_deps (load_cache (Some demo_cache))"
proof -
  obtain res where
    c: "compile demo_rt no_stat no_stat (Inr demo_text) (Some demo_cache) demo_self = Inr res"
    and v: "cached res"
    by (simp add: compile_def process_tokens tokens_demo_text demo_defs run_defs newline_def)
  from validity_decision [OF c] v c show ?thesis by auto
qed

subsection \<open>A cache file that cannot be loaded\<close>


subsection \<open>Saving the cache\<close>




subsection \<open>Declaring a dependency\<close>

text \<open>
  Claim C9. \<^verbatim>\<open>dep(id)\<close> returns \<open>id\<close>; afterwards the table maps \<open>id\<close> to the
  empty stamp; an \<open>id\<close> that was absent is inserted with the empty stamp and nothing else
  changes; a second call with the same \<open>id\<close> changes nothing; the other keys keep their
  stamps.
\<close>

theorem dep_declares:
  "fst (dep k self) = k
   \<and> deps (snd (dep k self)) k = Some []
   \<and> (deps self k = None \<longrightarrow> deps (snd (dep k self)) = (deps self)(k \<mapsto> []))
   \<and> snd (dep k (snd (dep k self))) = snd (dep k self)
   \<and> (\<forall>j. j \<noteq> k \<longrightarrow> deps (snd (dep k self)) j = deps self j)"
  by (simp add: dep_def)

theorem dep_declares_witness:
  "deps demo_self ''data.csv'' = None
   \<and> fst (dep ''data.csv'' demo_self) = ''data.csv''
   \<and> deps (snd (dep ''data.csv'' demo_self)) ''data.csv'' = Some []
   \<and> deps (snd (dep ''data.csv'' demo_self)) ''pyptex.py'' = deps demo_self ''pyptex.py''
   \<and> snd (dep ''data.csv'' (snd (dep ''data.csv'' demo_self))) = snd (dep ''data.csv'' demo_self)"
  using dep_declares [of "''data.csv''" demo_self]
  by (simp add: demo_self_def new_instance_def dep_def)

end
